theory Spec2Isabelle
  imports Complex_Main "HOL-Library.Sublist" "HOL-Library.Char_ord" "HOL-Library.List_Lexorder"
    "HOL-Library.Product_Lexorder"
begin

section \<open>Conventions of the embedding\<close>

text \<open>
  Python \<open>float\<close> values are modelled twice. Over \<open>real\<close>, without rounding, overflow
  and NaN, for the properties that do not depend on the range of the floats (pairing
  of texts and vectors, skill sets, jaccard). Over \<open>pyfloat\<close>, with overflow, infinities
  and NaN, for the properties of the similarity values themselves.
  A Python \<open>str\<close> is a \<open>string\<close> whose characters are the code points below 256.
  Every Python exception the modelled code can raise is a value of \<open>py_error\<close>, and a
  function that may raise returns \<open>py_error + 'a\<close>.
\<close>

datatype py_error = ZeroDivisionError | TypeError | KeyError | AgentError string

fun bind_result :: "py_error + 'a \<Rightarrow> ('a \<Rightarrow> py_error + 'b) \<Rightarrow> py_error + 'b" where
  "bind_result (Inl e) f = Inl e"
| "bind_result (Inr x) f = f x"

text \<open>Python's true division \<open>a / b\<close> raises on a zero divisor.\<close>

definition py_truediv :: "real \<Rightarrow> real \<Rightarrow> py_error + real" where
  "py_truediv a b = (if b = 0 then Inl ZeroDivisionError else Inr (a / b))"

section \<open>scoring.py\<close>

text \<open>\<open>dot\<close>: \<open>float(sum(x * y for x, y in zip(a, b)))\<close>; \<open>zip\<close> stops at the shorter list.\<close>

definition dot :: "real list \<Rightarrow> real list \<Rightarrow> real" where
  "dot a b = sum_list (map (\<lambda>(x, y). x * y) (zip a b))"

text \<open>\<open>norm\<close>: \<open>float(sum(x * x for x in a) ** 0.5)\<close>.\<close>

definition norm_vec :: "real list \<Rightarrow> real" where
  "norm_vec a = sqrt (sum_list (map (\<lambda>x. x * x) a))"

text \<open>
  \<open>cosine_similarity\<close>: \<open>denom = (norm(a) * norm(b)) or 1.0\<close>, then \<open>dot(a, b) / denom\<close>.
  The \<open>or\<close> replaces a zero product by \<open>1.0\<close>.
\<close>

definition cosine_denom :: "real list \<Rightarrow> real list \<Rightarrow> real" where
  "cosine_denom a b = (if norm_vec a * norm_vec b = 0 then 1 else norm_vec a * norm_vec b)"

definition cosine_similarity :: "real list \<Rightarrow> real list \<Rightarrow> py_error + real" where
  "cosine_similarity a b = py_truediv (dot a b) (cosine_denom a b)"

text \<open>
  \<open>str.lower()\<close> on the code points below 256: the ASCII capitals and the Latin-1
  capitals (\<open>0xC0\<close> to \<open>0xDE\<close> without the multiplication sign \<open>0xD7\<close>) move up by 32.
\<close>

definition lower_char :: "char \<Rightarrow> char" where
  "lower_char c =
     (let n = (of_char c :: nat)
      in if (65 \<le> n \<and> n \<le> 90) \<or> (192 \<le> n \<and> n \<le> 222 \<and> n \<noteq> 215)
         then char_of (n + 32) else c)"

definition lower :: "string \<Rightarrow> string" where
  "lower s = map lower_char s"

text \<open>
  The dictionary returned by \<open>compute_match_score\<close>. The \<open>explanation\<close> entry is a
  formatted rendering of \<open>similarity\<close>, \<open>skill_overlap\<close>, \<open>skill_union\<close> and \<open>score\<close>; it
  carries no further information, so the record keeps the two counts in its place.
\<close>

record MatchResult =
  similarity :: real
  jaccard :: real
  score :: real
  confidence :: real
  missing_skills :: "string list"
  skill_overlap :: nat
  skill_union :: nat

text \<open>\<open>len(rs | js) or 1\<close>: a zero length is replaced by 1.\<close>

definition len_or_1 :: "string set \<Rightarrow> nat" where
  "len_or_1 s = (if card s = 0 then 1 else card s)"

definition compute_match_score ::
    "real list \<Rightarrow> real list \<Rightarrow> string list \<Rightarrow> string list \<Rightarrow> py_error + MatchResult" where
  "compute_match_score resume_vec job_vec resume_skills job_skills =
     bind_result (cosine_similarity resume_vec job_vec) (\<lambda>sim.
       let rs = set (map lower resume_skills);
           js = set (map lower job_skills);
           overlap = card (rs \<inter> js);
           union = len_or_1 (rs \<union> js)
       in bind_result (py_truediv (real overlap) (real union)) (\<lambda>jac.
            let raw = 0.7 * sim + 0.3 * jac;
                score_pct = max 0 (min 1 raw) * 100;
                conf = 0.5 + 0.5 * min sim 1
            in Inr \<lparr>similarity = sim, jaccard = jac, score = score_pct, confidence = conf,
                    missing_skills = sorted_list_of_set (js - rs),
                    skill_overlap = overlap, skill_union = union\<rparr>))"

section \<open>scoring.py: evidence ranking\<close>

text \<open>
  The list comprehension of \<open>top_k_matches\<close> over \<open>zip(corpus_texts, corpus_vecs)\<close>; an
  exception of \<open>cosine_similarity\<close> would abort it.
\<close>

fun collect_sims :: "real list \<Rightarrow> (string \<times> real list) list \<Rightarrow> py_error + (string \<times> real) list" where
  "collect_sims q [] = Inr []"
| "collect_sims q ((text, vec) # rest) =
     bind_result (cosine_similarity q vec) (\<lambda>s.
       bind_result (collect_sims q rest) (\<lambda>r. Inr ((text, s) # r)))"

text \<open>
  \<open>sims.sort(key=lambda x: x[1], reverse=True)\<close>: Python's sort is stable, also with
  \<open>reverse=True\<close>. It is the stable insertion sort of the library on the negated key.
\<close>

definition sort_by_sim_desc :: "(string \<times> real) list \<Rightarrow> (string \<times> real) list" where
  "sort_by_sim_desc sims = sort_key (\<lambda>x. - snd x) sims"

text \<open>The slice \<open>xs[:k]\<close>; a negative \<open>k\<close> counts from the end.\<close>

definition slice_to :: "'a list \<Rightarrow> int \<Rightarrow> 'a list" where
  "slice_to xs k = (if k < 0 then take (nat (int (length xs) + k)) xs else take (nat k) xs)"

definition top_k_matches ::
    "real list \<Rightarrow> string list \<Rightarrow> real list list \<Rightarrow> int \<Rightarrow> py_error + (string \<times> real) list" where
  "top_k_matches query_vec corpus_texts corpus_vecs k =
     bind_result (collect_sims query_vec (zip corpus_texts corpus_vecs)) (\<lambda>sims.
       Inr (slice_to (sort_by_sim_desc sims) k))"

section \<open>workflow.py and the analysis run of latest.py\<close>











section \<open>parsing.py\<close>

text \<open>
  The matches of a regular expression \<open>[...]+\<close> over one character class, as
  \<open>re.findall\<close> returns them: the maximal runs of characters of the class, left to
  right. \<open>str.split()\<close> without argument is the same over the non-whitespace characters.
\<close>

function findall_class :: "(char \<Rightarrow> bool) \<Rightarrow> string \<Rightarrow> string list" where
  "findall_class p [] = []"
| "findall_class p (c # cs) =
     (if p c then takeWhile p (c # cs) # findall_class p (dropWhile p cs)
      else findall_class p cs)"
  by pat_completeness auto
termination
  by (relation "measure (\<lambda>(p, s). length s)") (auto simp: length_dropWhile_le less_Suc_eq_le)

text \<open>
  The whitespace of \<open>str.strip()\<close> and \<open>str.split()\<close> and the line boundaries of
  \<open>str.splitlines()\<close>, for the code points below 256.
\<close>

definition is_space :: "char \<Rightarrow> bool" where
  "is_space c =
     (let n = (of_char c :: nat)
      in (9 \<le> n \<and> n \<le> 13) \<or> (28 \<le> n \<and> n \<le> 32) \<or> n = 133 \<or> n = 160)"

definition is_linebreak :: "char \<Rightarrow> bool" where
  "is_linebreak c =
     (let n = (of_char c :: nat)
      in (10 \<le> n \<and> n \<le> 13) \<or> (28 \<le> n \<and> n \<le> 30) \<or> n = 133)"

definition strip :: "string \<Rightarrow> string" where
  "strip s = rev (dropWhile is_space (rev (dropWhile is_space s)))"

definition split_ws :: "string \<Rightarrow> string list" where
  "split_ws s = findall_class (\<lambda>c. \<not> is_space c) s"

text \<open>
  \<open>str.splitlines()\<close>: the text is cut at each line boundary, \<open>\r\n\<close> counting as one,
  and a boundary at the very end opens no further line.
\<close>

function splitlines :: "string \<Rightarrow> string list" where
  "splitlines [] = []"
| "splitlines (c # cs) =
     takeWhile (\<lambda>x. \<not> is_linebreak x) (c # cs) #
       (case dropWhile (\<lambda>x. \<not> is_linebreak x) (c # cs) of
          [] \<Rightarrow> []
        | b # rest \<Rightarrow>
            (if b = CHR 0x0D \<and> rest \<noteq> [] \<and> hd rest = CHR 0x0A then splitlines (tl rest)
             else splitlines rest))"
  by pat_completeness auto
termination
proof (relation "measure length")
  show "wf (measure length)" by simp
next
  fix c cs b rest
  assume d: "dropWhile (\<lambda>x. \<not> is_linebreak x) (c # cs) = b # rest"
  have "length (b # rest) \<le> length (c # cs)"
    unfolding d [symmetric] by (rule length_dropWhile_le)
  then have r: "length rest < length (c # cs)" by simp
  {
    assume "b = CHR 0x0D \<and> rest \<noteq> [] \<and> hd rest = CHR 0x0A"
    then show "(tl rest, c # cs) \<in> measure length" using r by simp
  }
  {
    assume "\<not> (b = CHR 0x0D \<and> rest \<noteq> [] \<and> hd rest = CHR 0x0A)"
    show "(rest, c # cs) \<in> measure length" using r by simp
  }
qed

text \<open>\<open>extract_name\<close>: the first line is \<open>(text.splitlines() or [""])[0].strip()\<close>.\<close>

definition first_line_of :: "string \<Rightarrow> string" where
  "first_line_of text = strip (case splitlines text of [] \<Rightarrow> [] | l # ls \<Rightarrow> l)"

definition extract_name :: "string \<Rightarrow> string option" where
  "extract_name text =
     (let first_line = first_line_of text
      in if 2 \<le> length (split_ws first_line) \<and> length (split_ws first_line) \<le> 5
            \<and> length first_line \<le> 64
         then Some first_line else None)"

text \<open>
  The name rule as the specification words it: the first non-empty line of the text
  (a line being non-empty when something is left of it after stripping), accepted
  under the same word and length bounds.
\<close>

definition extract_name_spec :: "string \<Rightarrow> string option" where
  "extract_name_spec text =
     (case filter (\<lambda>l. l \<noteq> []) (map strip (splitlines text)) of
        [] \<Rightarrow> None
      | l # ls \<Rightarrow>
          if 2 \<le> length (split_ws l) \<and> length (split_ws l) \<le> 5 \<and> length l \<le> 64
          then Some l else None)"

section \<open>parsing.py: skills\<close>

text \<open>The character class \<open>[A-Za-z#+.\-]\<close> of the skill tokenizer.\<close>

definition is_skill_char :: "char \<Rightarrow> bool" where
  "is_skill_char c =
     (let n = (of_char c :: nat)
      in (65 \<le> n \<and> n \<le> 90) \<or> (97 \<le> n \<and> n \<le> 122)
         \<or> n = 35 \<or> n = 43 \<or> n = 46 \<or> n = 45)"

text \<open>
  \<open>BASIC_SKILLS\<close> is a set literal; the list names its elements in the order of the
  source text.
\<close>

definition BASIC_SKILLS_list :: "string list" where
  "BASIC_SKILLS_list =
     [''python'', ''java'', ''javascript'', ''typescript'', ''c++'', ''c#'', ''go'', ''rust'', ''sql'',
      ''pandas'', ''numpy'', ''scikit-learn'', ''tensorflow'', ''pytorch'', ''nlp'', ''spacy'', ''nltk'',
      ''aws'', ''azure'', ''gcp'', ''docker'', ''kubernetes'', ''ci/cd'', ''git'',
      ''react'', ''node'', ''streamlit'', ''flask'', ''django'']"

definition BASIC_SKILLS :: "string set" where
  "BASIC_SKILLS = set BASIC_SKILLS_list"

text \<open>
  \<open>extract_skills\<close>: \<open>tokens = set(re.findall(r"[A-Za-z#+.\-]+", text.lower()))\<close>, then
  \<open>sorted(s for s in BASIC_SKILLS if s in tokens)\<close>. Python orders strings
  lexicographically by code point.
\<close>

definition skill_tokens :: "string \<Rightarrow> string set" where
  "skill_tokens text = set (findall_class is_skill_char (lower text))"

definition extract_skills :: "string \<Rightarrow> string list" where
  "extract_skills text = sorted_list_of_set {s \<in> BASIC_SKILLS. s \<in> skill_tokens text}"

text \<open>\<open>parse_job_description\<close>: \<open>text or ""\<close> turns None into the empty text.\<close>

definition parse_job_description :: "string option \<Rightarrow> (string \<times> string list) list" where
  "parse_job_description text =
     (let t = (case text of None \<Rightarrow> [] | Some s \<Rightarrow> s)
      in [(''skills'', extract_skills t)])"

text \<open>
  The skill rule as the specification words it: the tokens are the runs of
  alphanumeric characters (ASCII letters and digits) and \<open>#\<close>, \<open>+\<close>, \<open>.\<close>, \<open>-\<close> of the
  lowercased text, and the result is the sorted intersection of the token set with
  the vocabulary.
\<close>

definition is_digit :: "char \<Rightarrow> bool" where
  "is_digit c = (let n = (of_char c :: nat) in 48 \<le> n \<and> n \<le> 57)"

definition is_alnum_skill_char :: "char \<Rightarrow> bool" where
  "is_alnum_skill_char c = (is_skill_char c \<or> is_digit c)"

definition extract_skills_spec :: "string \<Rightarrow> string list" where
  "extract_skills_spec text =
     sorted_list_of_set (set (findall_class is_alnum_skill_char (lower text)) \<inter> BASIC_SKILLS)"

section \<open>Python floats with infinities and NaN\<close>

text \<open>
  Where a claim depends on the range of the floats, \<open>scoring.py\<close> is embedded a second
  time over \<open>pyfloat\<close>: a finite value, an infinity or NaN. An operation on finite values
  whose exact result reaches the overflow threshold of binary64 under round-to-nearest,
  \<open>2^1024 - 2^970\<close>, gives an infinity; below it the exact result is kept (rounding to
  the nearest double and the sign of zero are not modelled). Infinities and NaN follow
  IEEE 754, comparisons with NaN are false.
\<close>

datatype pyfloat = Fin real | PInf | NInf | NaN

definition float_overflow :: real where
  "float_overflow = 2 ^ 1024 - 2 ^ 970"

definition fl_round :: "real \<Rightarrow> pyfloat" where
  "fl_round r =
     (if float_overflow \<le> r then PInf else if r \<le> - float_overflow then NInf else Fin r)"

fun fl_neg :: "pyfloat \<Rightarrow> pyfloat" where
  "fl_neg (Fin r) = Fin (- r)"
| "fl_neg PInf = NInf"
| "fl_neg NInf = PInf"
| "fl_neg NaN = NaN"

text \<open>\<open>x * y\<close>: zero times an infinity is NaN.\<close>

fun fl_mul :: "pyfloat \<Rightarrow> pyfloat \<Rightarrow> pyfloat" where
  "fl_mul NaN y = NaN"
| "fl_mul x NaN = NaN"
| "fl_mul (Fin a) (Fin b) = fl_round (a * b)"
| "fl_mul (Fin a) y = (if a = 0 then NaN else if 0 < a then y else fl_neg y)"
| "fl_mul x (Fin b) = (if b = 0 then NaN else if 0 < b then x else fl_neg x)"
| "fl_mul PInf y = y"
| "fl_mul NInf y = fl_neg y"

text \<open>\<open>x + y\<close>: the sum of opposite infinities is NaN.\<close>

fun fl_add :: "pyfloat \<Rightarrow> pyfloat \<Rightarrow> pyfloat" where
  "fl_add NaN y = NaN"
| "fl_add x NaN = NaN"
| "fl_add (Fin a) (Fin b) = fl_round (a + b)"
| "fl_add (Fin a) y = y"
| "fl_add x (Fin b) = x"
| "fl_add PInf PInf = PInf"
| "fl_add NInf NInf = NInf"
| "fl_add PInf NInf = NaN"
| "fl_add NInf PInf = NaN"

text \<open>
  \<open>x / y\<close> on floats: Python raises ZeroDivisionError on a zero divisor, whatever the
  dividend; otherwise the IEEE quotient.
\<close>

fun fl_truediv :: "pyfloat \<Rightarrow> pyfloat \<Rightarrow> py_error + pyfloat" where
  "fl_truediv x (Fin b) =
     (if b = 0 then Inl ZeroDivisionError
      else case x of
             Fin a \<Rightarrow> Inr (fl_round (a / b))
           | NaN \<Rightarrow> Inr NaN
           | PInf \<Rightarrow> Inr (if 0 < b then PInf else NInf)
           | NInf \<Rightarrow> Inr (if 0 < b then NInf else PInf))"
| "fl_truediv NaN y = Inr NaN"
| "fl_truediv x NaN = Inr NaN"
| "fl_truediv (Fin a) y = Inr (Fin 0)"
| "fl_truediv x y = Inr NaN"

text \<open>
  \<open>x ** 0.5\<close> followed by \<open>float(...)\<close>: the square root; for a negative finite \<open>x\<close> the
  power is a complex number, which \<open>float\<close> refuses with TypeError.
\<close>

fun pow_half :: "pyfloat \<Rightarrow> py_error + pyfloat" where
  "pow_half (Fin r) = (if r < 0 then Inl TypeError else Inr (Fin (sqrt r)))"
| "pow_half PInf = Inr PInf"
| "pow_half NInf = Inr PInf"
| "pow_half NaN = Inr NaN"

fun fl_lt :: "pyfloat \<Rightarrow> pyfloat \<Rightarrow> bool" where
  "fl_lt NaN y = False"
| "fl_lt x NaN = False"
| "fl_lt (Fin a) (Fin b) = (a < b)"
| "fl_lt NInf NInf = False"
| "fl_lt NInf y = True"
| "fl_lt x NInf = False"
| "fl_lt PInf y = False"
| "fl_lt x PInf = True"

definition fl_le :: "pyfloat \<Rightarrow> pyfloat \<Rightarrow> bool" where
  "fl_le x y = (fl_lt x y \<or> (x = y \<and> x \<noteq> NaN))"

text \<open>Truth value of a float in \<open>x or 1.0\<close>: only zero is false, NaN is true.\<close>

definition truthy :: "pyfloat \<Rightarrow> bool" where
  "truthy x = (x \<noteq> Fin 0)"

text \<open>
  \<open>min(a, b)\<close> keeps \<open>a\<close> unless \<open>b < a\<close>; \<open>max(a, b)\<close> keeps \<open>a\<close> unless \<open>b > a\<close>.
\<close>

definition py_min2 :: "pyfloat \<Rightarrow> pyfloat \<Rightarrow> pyfloat" where
  "py_min2 a b = (if fl_lt b a then b else a)"

definition py_max2 :: "pyfloat \<Rightarrow> pyfloat \<Rightarrow> pyfloat" where
  "py_max2 a b = (if fl_lt a b then b else a)"

section \<open>scoring.py over floats\<close>

text \<open>\<open>sum\<close> adds from the left, starting at \<open>0\<close>.\<close>

definition dot_fp :: "pyfloat list \<Rightarrow> pyfloat list \<Rightarrow> pyfloat" where
  "dot_fp a b = foldl fl_add (Fin 0) (map (\<lambda>(x, y). fl_mul x y) (zip a b))"

definition sum_squares_fp :: "pyfloat list \<Rightarrow> pyfloat" where
  "sum_squares_fp a = foldl fl_add (Fin 0) (map (\<lambda>x. fl_mul x x) a)"

definition norm_fp :: "pyfloat list \<Rightarrow> py_error + pyfloat" where
  "norm_fp a = pow_half (sum_squares_fp a)"

definition cosine_denom_fp :: "pyfloat list \<Rightarrow> pyfloat list \<Rightarrow> py_error + pyfloat" where
  "cosine_denom_fp a b =
     bind_result (norm_fp a) (\<lambda>na.
       bind_result (norm_fp b) (\<lambda>nb.
         let p = fl_mul na nb in Inr (if truthy p then p else Fin 1)))"

definition cosine_similarity_fp :: "pyfloat list \<Rightarrow> pyfloat list \<Rightarrow> py_error + pyfloat" where
  "cosine_similarity_fp a b =
     bind_result (cosine_denom_fp a b) (\<lambda>denom. fl_truediv (dot_fp a b) denom)"

text \<open>
  \<open>compute_match_score\<close> over floats; the skill sets are as before.
\<close>

record MatchResult_fp =
  similarity_fp :: pyfloat
  jaccard_fp :: pyfloat
  score_fp :: pyfloat
  confidence_fp :: pyfloat
  missing_skills_fp :: "string list"
  skill_overlap_fp :: nat
  skill_union_fp :: nat

definition compute_match_score_fp ::
    "pyfloat list \<Rightarrow> pyfloat list \<Rightarrow> string list \<Rightarrow> string list
     \<Rightarrow> py_error + MatchResult_fp" where
  "compute_match_score_fp resume_vec job_vec resume_skills job_skills =
     bind_result (cosine_similarity_fp resume_vec job_vec) (\<lambda>sim.
       let rs = set (map lower resume_skills);
           js = set (map lower job_skills);
           overlap = card (rs \<inter> js);
           union = len_or_1 (rs \<union> js)
       in bind_result (fl_truediv (Fin (real overlap)) (Fin (real union))) (\<lambda>jac.
            let raw = fl_add (fl_mul (Fin 0.7) sim) (fl_mul (Fin 0.3) jac);
                score_pct = fl_mul (py_max2 (Fin 0) (py_min2 (Fin 1) raw)) (Fin 100);
                conf = fl_add (Fin 0.5) (fl_mul (Fin 0.5) (py_min2 sim (Fin 1)))
            in Inr \<lparr>similarity_fp = sim, jaccard_fp = jac, score_fp = score_pct,
                    confidence_fp = conf,
                    missing_skills_fp = sorted_list_of_set (js - rs),
                    skill_overlap_fp = overlap, skill_union_fp = union\<rparr>))"









text \<open>Auxiliary predicates on floats.\<close>

fun is_finite :: "pyfloat \<Rightarrow> bool" where
  "is_finite (Fin r) = True"
| "is_finite x = False"

fun not_negative :: "pyfloat \<Rightarrow> bool" where
  "not_negative (Fin r) = (0 \<le> r)"
| "not_negative NInf = False"
| "not_negative x = True"

section \<open>Properties of the scoring engine over the reals\<close>

lemma cosine_denom_nonzero: "cosine_denom a b \<noteq> 0"
  by (simp add: cosine_denom_def)

lemma cosine_similarity_value: "cosine_similarity a b = Inr (dot a b / cosine_denom a b)"
  by (simp add: cosine_similarity_def py_truediv_def cosine_denom_nonzero)

lemma len_or_1_pos: "len_or_1 s \<noteq> 0"
  by (simp add: len_or_1_def)

lemma compute_match_score_value:
  "compute_match_score u v A B =
     Inr \<lparr>similarity = dot u v / cosine_denom u v,
          jaccard = real (card (set (map lower A) \<inter> set (map lower B)))
                    / real (len_or_1 (set (map lower A) \<union> set (map lower B))),
          score = max 0 (min 1 (0.7 * (dot u v / cosine_denom u v)
                    + 0.3 * (real (card (set (map lower A) \<inter> set (map lower B)))
                    / real (len_or_1 (set (map lower A) \<union> set (map lower B)))))) * 100,
          confidence = 0.5 + 0.5 * min (dot u v / cosine_denom u v) 1,
          missing_skills = sorted_list_of_set (set (map lower B) - set (map lower A)),
          skill_overlap = card (set (map lower A) \<inter> set (map lower B)),
          skill_union = len_or_1 (set (map lower A) \<union> set (map lower B))\<rparr>"
  by (simp add: compute_match_score_def cosine_similarity_value py_truediv_def len_or_1_pos Let_def)

text \<open>
  Claim C7. The jaccard value of the MatchResult is symmetric in the two skill lists
  (whatever the vectors are); it is 1 when both lists are the same non-empty list; and
  it is 0 when both lists are empty, the union size being floored at 1.
\<close>

theorem C7_jaccard_symmetric_reflexive_empty:
  "(\<exists>r r'. compute_match_score u v A B = Inr r \<and> compute_match_score u' v' B A = Inr r'
            \<and> jaccard r = jaccard r')
   \<and> (A \<noteq> [] \<longrightarrow> (\<exists>r. compute_match_score u v A A = Inr r \<and> jaccard r = 1))
   \<and> (\<exists>r. compute_match_score u v [] [] = Inr r \<and> jaccard r = 0 \<and> skill_union r = 1)"
proof (intro conjI impI)
  show "\<exists>r r'. compute_match_score u v A B = Inr r \<and> compute_match_score u' v' B A = Inr r'
            \<and> jaccard r = jaccard r'"
    unfolding compute_match_score_value by (simp add: Int_commute Un_commute)
next
  assume ne: "A \<noteq> []"
  then have "set (map lower A) \<noteq> {}" by simp
  then have "card (set (map lower A)) \<noteq> 0" by (simp only: card_eq_0_iff) simp
  then show "\<exists>r. compute_match_score u v A A = Inr r \<and> jaccard r = 1"
    unfolding compute_match_score_value by (simp add: len_or_1_def)
next
  show "\<exists>r. compute_match_score u v [] [] = Inr r \<and> jaccard r = 0 \<and> skill_union r = 1"
    unfolding compute_match_score_value by (simp add: len_or_1_def)
qed

theorem C7_witness:
  "[''Python'', ''sql''] \<noteq> []
   \<and> (\<exists>r. compute_match_score [1] [1] [''Python'', ''sql''] [''Python'', ''sql''] = Inr r
          \<and> jaccard r = 1)"
  using C7_jaccard_symmetric_reflexive_empty [of "[1]" "[1]" "[''Python'', ''sql'']"]
  by simp

section \<open>Properties of the evidence ranker\<close>

lemma collect_sims_value:
  "collect_sims q tvs = Inr (map (\<lambda>(t, v). (t, dot q v / cosine_denom q v)) tvs)"
  by (induction tvs) (auto simp: cosine_similarity_value)

lemma top_k_matches_value:
  "top_k_matches q ts vs k =
     Inr (slice_to (sort_by_sim_desc (map (\<lambda>(t, v). (t, dot q v / cosine_denom q v)) (zip ts vs))) k)"
  by (simp add: top_k_matches_def collect_sims_value)



lemma zip_take_min:
  "zip ts vs = zip (take (min (length ts) (length vs)) ts) (take (min (length ts) (length vs)) vs)"
proof (induction ts arbitrary: vs)
  case Nil show ?case by simp
next
  case (Cons t ts)
  show ?case
  proof (cases vs)
    case Nil then show ?thesis by simp
  next
    case (Cons v vs')
    then show ?thesis using Cons.IH [of vs'] by simp
  qed
qed

text \<open>
  Claim C3, as stated (a length mismatch fails loudly), fails: with two texts and one
  vector \<open>top_k_matches\<close> returns the ranking of the first text alone, because \<open>zip\<close>
  stops at the shorter list.
\<close>

theorem C3_counterexample:
  "length [''a'', ''b''] \<noteq> length [[1 :: real]]
   \<and> top_k_matches [1] [''a'', ''b''] [[1]] 5 = Inr [(''a'', 1)]"
  by (simp add: top_k_matches_value sort_by_sim_desc_def slice_to_def dot_def cosine_denom_def norm_vec_def)

text \<open>
  Claim C3, amended. When \<open>candidate_texts\<close> and \<open>candidate_vectors\<close> have different
  lengths the ranker raises nothing: it returns a ranking, and that ranking is the one
  of the first \<open>min(len(texts), len(vectors))\<close> texts and vectors, the surplus entries of
  the longer list being ignored.
\<close>

theorem C3_mismatch_truncates_amended:
  "length ts \<noteq> length vs \<Longrightarrow>
     (\<exists>out. top_k_matches q ts vs k = Inr out)
     \<and> top_k_matches q ts vs k
         = top_k_matches q (take (min (length ts) (length vs)) ts)
             (take (min (length ts) (length vs)) vs) k"
proof -
  have "zip ts vs = zip (take (min (length ts) (length vs)) ts) (take (min (length ts) (length vs)) vs)"
    by (rule zip_take_min)
  then show ?thesis by (simp add: top_k_matches_value)
qed

theorem C3_witness:
  "length [''a'', ''b'', ''c''] \<noteq> length [[0, 1], [1, 0 :: real]]
   \<and> top_k_matches [1, 0] [''a'', ''b'', ''c''] [[0, 1], [1, 0]] 5
       = top_k_matches [1, 0] [''a'', ''b''] [[0, 1], [1, 0]] 5
   \<and> top_k_matches [1, 0] [''a'', ''b'', ''c''] [[0, 1], [1, 0]] 5 = Inr [(''b'', 1), (''a'', 0)]"
  using C3_mismatch_truncates_amended [of "[''a'', ''b'', ''c'']" "[[0, 1], [1, 0]]" "[1, 0]" 5]
  by (simp add: top_k_matches_value sort_by_sim_desc_def slice_to_def dot_def cosine_denom_def norm_vec_def)

section \<open>Properties of the workflow trace\<close>






section \<open>Properties of the name extractor\<close>

lemma splitlines_first:
  "(case splitlines t of [] \<Rightarrow> [] | l # ls \<Rightarrow> l) = takeWhile (\<lambda>x. \<not> is_linebreak x) t"
  by (cases t) simp_all

lemma first_line_of_takeWhile:
  "first_line_of t = strip (takeWhile (\<lambda>x. \<not> is_linebreak x) t)"
  by (simp add: first_line_of_def splitlines_first)

lemma split_ws_Nil: "split_ws [] = []"
  by (simp add: split_ws_def)

lemma extract_name_blank: "first_line_of t = [] \<Longrightarrow> extract_name t = None"
  by (simp add: extract_name_def split_ws_Nil)

lemma extract_name_spec_first:
  assumes "first_line_of t \<noteq> []"
  shows "extract_name_spec t = extract_name t"
proof (cases "splitlines t")
  case Nil
  then show ?thesis using assms by (simp add: first_line_of_def strip_def)
next
  case (Cons l ls)
  then have "strip l \<noteq> []" using assms by (simp add: first_line_of_def)
  then show ?thesis using Cons
    by (simp add: extract_name_spec_def extract_name_def first_line_of_def Let_def)
qed

text \<open>
  Claim C4, as stated (the first non-empty line is taken), fails: for a text that opens
  with a line break \<open>extract_name\<close> looks at the empty first line only and returns
  None, although the first non-empty line, \<open>John Smith\<close>, has two words and ten
  characters.
\<close>

theorem C4_counterexample:
  "extract_name (CHR 0x0A # ''John Smith'') = None
   \<and> extract_name_spec (CHR 0x0A # ''John Smith'') = Some ''John Smith''"
  by (simp add: extract_name_def extract_name_spec_def first_line_of_def strip_def split_ws_def
      is_space_def is_linebreak_def)

text \<open>
  Claim C4, amended. For every input text the name extractor takes the first line of
  the text (everything before the first line boundary), stripped of surrounding
  whitespace, and returns it exactly when its word count is between 2 and 5 and its
  length is at most 64, otherwise None. When that line is not blank this is the rule
  of the specification; when it is blank the result is None, whatever follows.
\<close>

theorem C4_first_line_name_amended:
  "extract_name t =
     (if 2 \<le> length (split_ws (strip (takeWhile (\<lambda>x. \<not> is_linebreak x) t)))
         \<and> length (split_ws (strip (takeWhile (\<lambda>x. \<not> is_linebreak x) t))) \<le> 5
         \<and> length (strip (takeWhile (\<lambda>x. \<not> is_linebreak x) t)) \<le> 64
      then Some (strip (takeWhile (\<lambda>x. \<not> is_linebreak x) t)) else None)
   \<and> (strip (takeWhile (\<lambda>x. \<not> is_linebreak x) t) \<noteq> [] \<longrightarrow>
        extract_name t = extract_name_spec t)
   \<and> (strip (takeWhile (\<lambda>x. \<not> is_linebreak x) t) = [] \<longrightarrow> extract_name t = None)"
  using extract_name_blank [of t] extract_name_spec_first [of t]
  by (simp add: extract_name_def first_line_of_takeWhile Let_def)

theorem C4_witness:
  "strip (takeWhile (\<lambda>x. \<not> is_linebreak x) (''  Jane Q. Doe '' @ CHR 0x0A # ''jane@x.org'')) \<noteq> []
   \<and> extract_name (''  Jane Q. Doe '' @ CHR 0x0A # ''jane@x.org'') = Some ''Jane Q. Doe''
   \<and> extract_name_spec (''  Jane Q. Doe '' @ CHR 0x0A # ''jane@x.org'') = Some ''Jane Q. Doe''"
  using C4_first_line_name_amended [of "''  Jane Q. Doe '' @ CHR 0x0A # ''jane@x.org''"]
  by (auto simp add: strip_def split_ws_def is_space_def is_linebreak_def)

section \<open>Properties of the skill extractor\<close>

lemma distinct_BASIC_SKILLS_list: "distinct BASIC_SKILLS_list"
  unfolding BASIC_SKILLS_list_def by code_simp

lemma finite_BASIC_SKILLS: "finite BASIC_SKILLS"
  by (simp add: BASIC_SKILLS_def)

lemma sorted_list_of_filtered_vocabulary:
  "sorted_list_of_set {s \<in> BASIC_SKILLS. s \<in> T} = sort (filter (\<lambda>s. s \<in> T) BASIC_SKILLS_list)"
proof -
  have "{s \<in> BASIC_SKILLS. s \<in> T} = set (filter (\<lambda>s. s \<in> T) BASIC_SKILLS_list)"
    by (auto simp: BASIC_SKILLS_def)
  moreover have "distinct (filter (\<lambda>s. s \<in> T) BASIC_SKILLS_list)"
    using distinct_BASIC_SKILLS_list by (rule distinct_filter)
  ultimately show ?thesis
    by (simp only: sorted_list_of_set_sort_remdups distinct_remdups_id)
qed

lemma extract_skills_list:
  "extract_skills t = sort (filter (\<lambda>s. s \<in> skill_tokens t) BASIC_SKILLS_list)"
  by (simp only: extract_skills_def sorted_list_of_filtered_vocabulary)

lemma extract_skills_spec_list:
  "extract_skills_spec t
     = sort (filter (\<lambda>s. s \<in> set (findall_class is_alnum_skill_char (lower t))) BASIC_SKILLS_list)"
proof -
  have "set (findall_class is_alnum_skill_char (lower t)) \<inter> BASIC_SKILLS
          = {s \<in> BASIC_SKILLS. s \<in> set (findall_class is_alnum_skill_char (lower t))}"
    by auto
  then show ?thesis
    by (simp only: extract_skills_spec_def sorted_list_of_filtered_vocabulary)
qed



lemma findall_class_elems:
  "tok \<in> set (findall_class p s) \<Longrightarrow> tok \<noteq> [] \<and> (\<forall>c \<in> set tok. p c)"
proof (induction p s rule: findall_class.induct)
  case (1 p)
  then show ?case by simp
next
  case (2 p c cs)
  show ?case
  proof (cases "p c")
    case True
    have unf: "findall_class p (c # cs) = (c # takeWhile p cs) # findall_class p (dropWhile p cs)"
      using True by simp
    from "2.prems" have "tok = c # takeWhile p cs \<or> tok \<in> set (findall_class p (dropWhile p cs))"
      unfolding unf by simp
    then show ?thesis
    proof
      assume t: "tok = c # takeWhile p cs"
      have "\<forall>x \<in> set (takeWhile p cs). p x" by (blast dest: set_takeWhileD)
      then show ?thesis unfolding t using True by simp
    next
      assume "tok \<in> set (findall_class p (dropWhile p cs))"
      then show ?thesis by (rule "2.IH"(1) [OF True])
    qed
  next
    case False
    have unf: "findall_class p (c # cs) = findall_class p cs"
      using False by simp
    from "2.prems" have "tok \<in> set (findall_class p cs)" unfolding unf .
    then show ?thesis by (rule "2.IH"(2) [OF False])
  qed
qed

lemma findall_class_cong:
  "\<forall>c \<in> set s. p c = q c \<Longrightarrow> findall_class p s = findall_class q s"
proof (induction p s rule: findall_class.induct)
  case (1 p)
  show ?case by simp
next
  case (2 p c cs)
  have pc: "p c = q c" using "2.prems" by simp
  have tw: "takeWhile p cs = takeWhile q cs"
    using "2.prems" by (intro takeWhile_cong) simp_all
  have dw: "dropWhile p cs = dropWhile q cs"
    using "2.prems" by (intro dropWhile_cong) simp_all
  show ?case
  proof (cases "p c")
    case True
    have "\<forall>x \<in> set (dropWhile p cs). p x = q x"
      using "2.prems" by (auto dest: set_dropWhileD)
    then have "findall_class p (dropWhile p cs) = findall_class q (dropWhile p cs)"
      using "2.IH"(1) True by simp
    then show ?thesis using True pc tw dw by simp
  next
    case False
    have "findall_class p cs = findall_class q cs"
      using "2.IH"(2) False "2.prems" by simp
    then show ?thesis using False pc by simp
  qed
qed

lemma lower_char_digit: "is_digit (lower_char c) \<longleftrightarrow> is_digit c"
proof -
  let ?n = "of_char c :: nat"
  have lt: "?n < 256" by simp
  show ?thesis
  proof (cases "(65 \<le> ?n \<and> ?n \<le> 90) \<or> (192 \<le> ?n \<and> ?n \<le> 222 \<and> ?n \<noteq> 215)")
    case True
    then have "(?n + 32) mod 256 = ?n + 32" by auto
    then have "(of_char (char_of (?n + 32)) :: nat) = ?n + 32" by simp
    then show ?thesis using True by (auto simp: lower_char_def is_digit_def Let_def)
  next
    case False
    then show ?thesis by (auto simp: lower_char_def Let_def)
  qed
qed

lemma lower_no_digit: "\<forall>c \<in> set s. \<not> is_digit c \<Longrightarrow> \<forall>c \<in> set (lower s). \<not> is_digit c"
  by (auto simp: lower_def lower_char_digit)

lemma skill_char_not_digit: "is_skill_char c \<Longrightarrow> \<not> is_digit c"
  by (auto simp: is_skill_char_def is_digit_def Let_def)

lemma skill_tokens_elems:
  "tok \<in> skill_tokens s \<Longrightarrow> tok \<noteq> [] \<and> (\<forall>c \<in> set tok. is_skill_char c)"
  unfolding skill_tokens_def by (rule findall_class_elems)

lemma extract_skills_inter:
  "extract_skills s = sorted_list_of_set (skill_tokens s \<inter> BASIC_SKILLS)"
proof -
  have "{x \<in> BASIC_SKILLS. x \<in> skill_tokens s} = skill_tokens s \<inter> BASIC_SKILLS" by auto
  then show ?thesis by (simp add: extract_skills_def)
qed

lemma finite_skill_inter: "finite (skill_tokens s \<inter> BASIC_SKILLS)"
  using finite_BASIC_SKILLS by simp

lemma set_extract_skills: "set (extract_skills s) = skill_tokens s \<inter> BASIC_SKILLS"
  by (simp only: extract_skills_inter set_sorted_list_of_set [OF finite_skill_inter])

lemma extract_skills_no_digits:
  assumes "\<forall>c \<in> set s. \<not> is_digit c"
  shows "extract_skills s = extract_skills_spec s"
proof -
  have "\<forall>c \<in> set (lower s). is_skill_char c = is_alnum_skill_char c"
    using lower_no_digit [OF assms] by (simp add: is_alnum_skill_char_def)
  then have "findall_class is_skill_char (lower s) = findall_class is_alnum_skill_char (lower s)"
    by (rule findall_class_cong)
  then show ?thesis
    by (simp add: extract_skills_inter extract_skills_spec_def skill_tokens_def)
qed

lemma tok1: "findall_class is_skill_char (lower ''python3'') = [''python'']"
  by code_simp

lemma tok2: "findall_class is_alnum_skill_char (lower ''python3'') = [''python3'']"
  by code_simp

text \<open>
  Claim C5, as stated (tokens are runs of alphanumeric characters and \<open>#\<close>, \<open>+\<close>, \<open>.\<close>,
  \<open>-\<close>), fails: the character class of \<open>extract_skills\<close> has no digits, so a digit ends
  a token. The text \<open>python3\<close> yields the token \<open>python\<close> and the skill \<open>python\<close>, where
  the rule of the specification has the single token \<open>python3\<close> and no skill.
\<close>

theorem C5_counterexample:
  "extract_skills ''python3'' = [''python''] \<and> extract_skills_spec ''python3'' = []"
proof
  show "extract_skills ''python3'' = [''python'']"
    unfolding extract_skills_list skill_tokens_def tok1 BASIC_SKILLS_list_def by code_simp
  show "extract_skills_spec ''python3'' = []"
    unfolding extract_skills_spec_list tok2 BASIC_SKILLS_list_def by code_simp
qed

text \<open>
  Claim C5, amended. For every input text the skill extractor tokenizes the lowercased
  text into the maximal runs of ASCII letters and \<open>#\<close>, \<open>+\<close>, \<open>.\<close>, \<open>-\<close> (no token holds a
  digit), intersects the set of these tokens with the fixed vocabulary and returns
  exactly that intersection, sorted and without repetition. On a text without digits
  this is the rule of the specification.
\<close>

theorem C5_extract_skills_amended:
  "extract_skills s = sorted_list_of_set (skill_tokens s \<inter> BASIC_SKILLS)
   \<and> set (extract_skills s) = skill_tokens s \<inter> BASIC_SKILLS
   \<and> sorted (extract_skills s) \<and> distinct (extract_skills s)
   \<and> (\<forall>tok \<in> skill_tokens s. tok \<noteq> [] \<and> (\<forall>c \<in> set tok. is_skill_char c \<and> \<not> is_digit c))
   \<and> ((\<forall>c \<in> set s. \<not> is_digit c) \<longrightarrow> extract_skills s = extract_skills_spec s)"
proof (intro conjI)
  show "extract_skills s = sorted_list_of_set (skill_tokens s \<inter> BASIC_SKILLS)"
    by (rule extract_skills_inter)
  show "set (extract_skills s) = skill_tokens s \<inter> BASIC_SKILLS"
    by (rule set_extract_skills)
  show "sorted (extract_skills s)" by (simp add: extract_skills_inter)
  show "distinct (extract_skills s)" by (simp add: extract_skills_inter)
  show "\<forall>tok \<in> skill_tokens s. tok \<noteq> [] \<and> (\<forall>c \<in> set tok. is_skill_char c \<and> \<not> is_digit c)"
    using skill_tokens_elems skill_char_not_digit by blast
  show "(\<forall>c \<in> set s. \<not> is_digit c) \<longrightarrow> extract_skills s = extract_skills_spec s"
    using extract_skills_no_digits by blast
qed

theorem C5_witness:
  "list_all (\<lambda>c. \<not> is_digit c) ''SQL and C++''
   \<and> extract_skills ''SQL and C++'' = extract_skills_spec ''SQL and C++''
   \<and> set (extract_skills ''SQL and C++'') = skill_tokens ''SQL and C++'' \<inter> BASIC_SKILLS
   \<and> extract_skills ''SQL and C++'' = [''c++'', ''sql'']"
proof -
  have d: "\<forall>c \<in> set ''SQL and C++''. \<not> is_digit c" by code_simp
  have tok: "findall_class is_skill_char (lower ''SQL and C++'') = [''sql'', ''and'', ''c++'']"
    by code_simp
  have v: "extract_skills ''SQL and C++'' = [''c++'', ''sql'']"
    unfolding extract_skills_list skill_tokens_def tok BASIC_SKILLS_list_def by code_simp
  have l: "list_all (\<lambda>c. \<not> is_digit c) ''SQL and C++''" by code_simp
  show ?thesis using d l v C5_extract_skills_amended [of "''SQL and C++''"] by blast
qed

lemma lower_BASIC_SKILLS: "s \<in> BASIC_SKILLS \<Longrightarrow> lower s = s"
proof -
  have "list_all (\<lambda>x. lower x = x) BASIC_SKILLS_list"
    unfolding BASIC_SKILLS_list_def by code_simp
  then show "s \<in> BASIC_SKILLS \<Longrightarrow> lower s = s"
    by (simp add: BASIC_SKILLS_def list_all_iff)
qed

lemma slash_not_skill_char: "\<not> is_skill_char CHR ''/''"
  by code_simp

lemma cicd_not_token: "''ci/cd'' \<notin> skill_tokens s"
proof
  assume "''ci/cd'' \<in> skill_tokens s"
  then have "\<forall>c \<in> set ''ci/cd''. is_skill_char c" using skill_tokens_elems by blast
  then have "is_skill_char CHR ''/''" by simp
  then show False using slash_not_skill_char by simp
qed

lemma cicd_not_extracted: "''ci/cd'' \<notin> set (extract_skills s)"
  using cicd_not_token [of s] by (simp add: set_extract_skills)

lemma cicd_not_lowered: "''ci/cd'' \<notin> set (map lower (extract_skills s))"
proof
  assume "''ci/cd'' \<in> set (map lower (extract_skills s))"
  then obtain x where x: "x \<in> set (extract_skills s)" and l: "lower x = ''ci/cd''" by auto
  from x have "x \<in> BASIC_SKILLS" by (simp add: set_extract_skills)
  then have "lower x = x" by (rule lower_BASIC_SKILLS)
  with l x show False using cicd_not_extracted [of s] by simp
qed

lemma tok_cicd:
  "findall_class is_skill_char (lower ''CI/CD with Docker'') = [''ci'', ''cd'', ''with'', ''docker'']"
  by code_simp

lemma extract_cicd_text: "extract_skills ''CI/CD with Docker'' = [''docker'']"
  unfolding extract_skills_list skill_tokens_def tok_cicd BASIC_SKILLS_list_def by code_simp

text \<open>
  Claim C10. The vocabulary entry \<open>ci/cd\<close> is never returned by the skill extractor,
  whatever the text: no token holds the character \<open>/\<close>. Hence it is in no list of job
  skills from \<open>parse_job_description\<close> and in no \<open>missing_skills\<close> computed from extracted
  resume and job skills; the text \<open>CI/CD with Docker\<close> yields \<open>docker\<close> alone.
\<close>

theorem C10_cicd_never_extracted:
  "''ci/cd'' \<in> BASIC_SKILLS
   \<and> ''ci/cd'' \<notin> set (extract_skills s)
   \<and> (\<exists>sk. parse_job_description job = [(''skills'', sk)] \<and> ''ci/cd'' \<notin> set sk)
   \<and> (\<exists>r. compute_match_score u v (extract_skills s1) (extract_skills s2) = Inr r
          \<and> ''ci/cd'' \<notin> set (missing_skills r))
   \<and> extract_skills ''CI/CD with Docker'' = [''docker'']"
proof (intro conjI)
  show "''ci/cd'' \<in> BASIC_SKILLS" by (simp add: BASIC_SKILLS_def BASIC_SKILLS_list_def)
  show "''ci/cd'' \<notin> set (extract_skills s)" by (rule cicd_not_extracted)
  show "\<exists>sk. parse_job_description job = [(''skills'', sk)] \<and> ''ci/cd'' \<notin> set sk"
    using cicd_not_extracted by (simp add: parse_job_description_def)
  have fin: "finite (set (map lower (extract_skills s2)) - set (map lower (extract_skills s1)))"
    by simp
  have "''ci/cd'' \<notin> set (map lower (extract_skills s2)) - set (map lower (extract_skills s1))"
    using cicd_not_lowered [of s2] by blast
  then have "''ci/cd'' \<notin> set (sorted_list_of_set
      (set (map lower (extract_skills s2)) - set (map lower (extract_skills s1))))"
    by (simp only: set_sorted_list_of_set [OF fin] not_False_eq_True)
  then show "\<exists>r. compute_match_score u v (extract_skills s1) (extract_skills s2) = Inr r
          \<and> ''ci/cd'' \<notin> set (missing_skills r)"
    unfolding compute_match_score_value by simp
  show "extract_skills ''CI/CD with Docker'' = [''docker'']" by (rule extract_cicd_text)
qed

section \<open>Properties of the float operations and of the cosine similarity\<close>

lemma float_overflow_pos: "1 < float_overflow"
  by (simp add: float_overflow_def)

lemma fl_round_in_range: "- float_overflow < r \<Longrightarrow> r < float_overflow \<Longrightarrow> fl_round r = Fin r"
  by (simp add: fl_round_def)

lemma fl_round_0: "fl_round 0 = Fin 0"
  using float_overflow_pos by (simp add: fl_round_def)

lemma fl_round_not_negative: "0 \<le> r \<Longrightarrow> not_negative (fl_round r)"
  using float_overflow_pos by (simp add: fl_round_def)

lemma square_not_negative: "not_negative (fl_mul x x)"
  by (cases x) (simp_all add: fl_round_not_negative)

lemma add_not_negative: "not_negative x \<Longrightarrow> not_negative y \<Longrightarrow> not_negative (fl_add x y)"
  by (cases x; cases y) (simp_all add: fl_round_not_negative)

lemma foldl_add_not_negative:
  "not_negative acc \<Longrightarrow> \<forall>z \<in> set zs. not_negative z \<Longrightarrow> not_negative (foldl fl_add acc zs)"
  by (induction zs arbitrary: acc) (simp_all add: add_not_negative)

lemma sum_squares_not_negative: "not_negative (sum_squares_fp a)"
  unfolding sum_squares_fp_def
  by (rule foldl_add_not_negative) (auto simp: square_not_negative)

lemma pow_half_returns: "not_negative x \<Longrightarrow> \<exists>n. pow_half x = Inr n"
  by (cases x) simp_all

lemma norm_fp_returns: "\<exists>n. norm_fp a = Inr n"
  unfolding norm_fp_def by (rule pow_half_returns [OF sum_squares_not_negative])

lemma cosine_denom_fp_returns: "\<exists>d. cosine_denom_fp a b = Inr d \<and> d \<noteq> Fin 0"
proof -
  obtain na where na: "norm_fp a = Inr na" using norm_fp_returns by blast
  obtain nb where nb: "norm_fp b = Inr nb" using norm_fp_returns by blast
  show ?thesis by (simp add: cosine_denom_fp_def na nb truthy_def Let_def)
qed

lemma fl_truediv_returns: "d \<noteq> Fin 0 \<Longrightarrow> \<exists>s. fl_truediv x d = Inr s"
  by (cases x; cases d) simp_all

lemma cosine_similarity_fp_returns: "\<exists>s. cosine_similarity_fp a b = Inr s"
proof -
  obtain d where d: "cosine_denom_fp a b = Inr d" "d \<noteq> Fin 0"
    using cosine_denom_fp_returns by blast
  show ?thesis using fl_truediv_returns [OF d(2)] by (simp add: cosine_similarity_fp_def d(1))
qed

lemma foldl_add_zeros: "\<forall>z \<in> set zs. z = Fin 0 \<Longrightarrow> foldl fl_add (Fin 0) zs = Fin 0"
  by (induction zs) (simp_all add: fl_round_0)

lemma sum_squares_zero_vector: "\<forall>x \<in> set a. x = Fin 0 \<Longrightarrow> sum_squares_fp a = Fin 0"
  unfolding sum_squares_fp_def by (rule foldl_add_zeros) (auto simp: fl_round_0)

lemma norm_fp_zero_vector: "\<forall>x \<in> set a. x = Fin 0 \<Longrightarrow> norm_fp a = Inr (Fin 0)"
  by (simp add: norm_fp_def sum_squares_zero_vector)

lemma add_not_finite_left: "\<not> is_finite x \<Longrightarrow> \<not> is_finite (fl_add x y)"
  by (cases x; cases y) simp_all

lemma add_not_finite_right: "\<not> is_finite y \<Longrightarrow> \<not> is_finite (fl_add x y)"
  by (cases x; cases y) simp_all

lemma foldl_add_not_finite: "\<not> is_finite acc \<Longrightarrow> \<not> is_finite (foldl fl_add acc zs)"
  by (induction zs arbitrary: acc) (simp_all add: add_not_finite_left)

lemma foldl_add_finite_elems:
  "is_finite (foldl fl_add acc zs) \<Longrightarrow> \<forall>z \<in> set zs. is_finite z"
proof (induction zs arbitrary: acc)
  case Nil
  show ?case by simp
next
  case (Cons z zs)
  have f: "is_finite (fl_add acc z)"
    using Cons.prems foldl_add_not_finite [of "fl_add acc z" zs] by auto
  then have "is_finite z" using add_not_finite_right [of z acc] by blast
  moreover have "\<forall>y \<in> set zs. is_finite y" using Cons.IH [of "fl_add acc z"] Cons.prems by simp
  ultimately show ?case by simp
qed

lemma square_finite: "is_finite (fl_mul y y) \<Longrightarrow> is_finite y"
  by (cases y) simp_all

lemma pow_half_finite: "pow_half s = Inr (Fin n) \<Longrightarrow> is_finite s"
  by (cases s) (simp_all split: if_splits)

lemma norm_fp_finite_elems:
  assumes "norm_fp b = Inr (Fin n)"
  shows "\<forall>y \<in> set b. is_finite y"
proof -
  have "is_finite (sum_squares_fp b)" using assms pow_half_finite by (simp add: norm_fp_def)
  then have "\<forall>z \<in> set (map (\<lambda>x. fl_mul x x) b). is_finite z"
    unfolding sum_squares_fp_def by (rule foldl_add_finite_elems)
  then show ?thesis by (auto dest: square_finite)
qed

lemma is_finite_iff: "is_finite y \<longleftrightarrow> (\<exists>r. y = Fin r)"
  by (cases y) simp_all

lemma dot_fp_zero_left:
  assumes z: "\<forall>x \<in> set a. x = Fin 0" and f: "\<forall>y \<in> set b. is_finite y"
  shows "dot_fp a b = Fin 0"
proof -
  have "\<forall>p \<in> set (zip a b). fl_mul (fst p) (snd p) = Fin 0"
  proof
    fix p assume p: "p \<in> set (zip a b)"
    have "fst p \<in> set a" "snd p \<in> set b"
      using p by (auto dest: set_zip_leftD set_zip_rightD simp: prod_eq_iff [symmetric] intro: set_zip_leftD [of "fst p" "snd p"] set_zip_rightD [of "fst p" "snd p"])
    then obtain r where "fst p = Fin 0" "snd p = Fin r" using z f by (auto simp: is_finite_iff)
    then show "fl_mul (fst p) (snd p) = Fin 0" by (simp add: fl_round_0)
  qed
  then have "\<forall>t \<in> set (map (\<lambda>(x, y). fl_mul x y) (zip a b)). t = Fin 0"
    by (auto simp: case_prod_unfold)
  then show ?thesis unfolding dot_fp_def by (rule foldl_add_zeros)
qed

lemma dot_fp_zero_right:
  assumes z: "\<forall>y \<in> set b. y = Fin 0" and f: "\<forall>x \<in> set a. is_finite x"
  shows "dot_fp a b = Fin 0"
proof -
  have "\<forall>p \<in> set (zip a b). fl_mul (fst p) (snd p) = Fin 0"
  proof
    fix p assume p: "p \<in> set (zip a b)"
    have "fst p \<in> set a" "snd p \<in> set b"
      using p by (auto intro: set_zip_leftD [of "fst p" "snd p"] set_zip_rightD [of "fst p" "snd p"])
    then obtain r where "snd p = Fin 0" "fst p = Fin r" using z f by (auto simp: is_finite_iff)
    then show "fl_mul (fst p) (snd p) = Fin 0" by (simp add: fl_round_0)
  qed
  then have "\<forall>t \<in> set (map (\<lambda>(x, y). fl_mul x y) (zip a b)). t = Fin 0"
    by (auto simp: case_prod_unfold)
  then show ?thesis unfolding dot_fp_def by (rule foldl_add_zeros)
qed

lemma cosine_zero_left:
  assumes z: "\<forall>x \<in> set a. x = Fin 0" and n: "norm_fp b = Inr (Fin n)"
  shows "cosine_denom_fp a b = Inr (Fin 1) \<and> cosine_similarity_fp a b = Inr (Fin 0)"
proof -
  have d: "cosine_denom_fp a b = Inr (Fin 1)"
    by (simp add: cosine_denom_fp_def norm_fp_zero_vector [OF z] n fl_round_0 truthy_def)
  have "dot_fp a b = Fin 0" by (rule dot_fp_zero_left [OF z norm_fp_finite_elems [OF n]])
  then show ?thesis using d by (simp add: cosine_similarity_fp_def fl_round_0)
qed

lemma cosine_zero_right:
  assumes z: "\<forall>y \<in> set b. y = Fin 0" and n: "norm_fp a = Inr (Fin n)"
  shows "cosine_denom_fp a b = Inr (Fin 1) \<and> cosine_similarity_fp a b = Inr (Fin 0)"
proof -
  have d: "cosine_denom_fp a b = Inr (Fin 1)"
    by (simp add: cosine_denom_fp_def norm_fp_zero_vector [OF z] n fl_round_0 truthy_def)
  have "dot_fp a b = Fin 0" by (rule dot_fp_zero_right [OF z norm_fp_finite_elems [OF n]])
  then show ?thesis using d by (simp add: cosine_similarity_fp_def fl_round_0)
qed

text \<open>
  Claim C8, as stated (a zero norm always gives denominator 1 and result 0), fails: for
  the zero vector \<open>[0.0]\<close> against \<open>[2^600]\<close> the square \<open>2^1200\<close> overflows, the norm of
  the second vector is infinite, the product of the norms is \<open>0 * inf = nan\<close>, which
  \<open>or\<close> keeps because NaN is true, and the result is NaN.
\<close>

theorem C8_counterexample:
  "sum_squares_fp [Fin 0] = Fin 0
   \<and> norm_fp [Fin 0] = Inr (Fin 0)
   \<and> norm_fp [Fin (2 ^ 600)] = Inr PInf
   \<and> cosine_denom_fp [Fin 0] [Fin (2 ^ 600)] = Inr NaN
   \<and> cosine_similarity_fp [Fin 0] [Fin (2 ^ 600)] = Inr NaN"
  by (simp add: cosine_similarity_fp_def cosine_denom_fp_def norm_fp_def sum_squares_fp_def
      dot_fp_def fl_round_def float_overflow_def truthy_def)

text \<open>
  Claim C8, amended. For all input vectors \<open>cosine_similarity\<close> returns a float and
  never raises ZeroDivisionError. When one vector consists of zeros only and the norm
  computed for the other vector is finite, the denominator is taken to be 1 and the
  result is 0. Whenever the product of the two computed norms is zero the denominator
  is taken to be 1.
\<close>

theorem C8_cosine_zero_vector_amended:
  "(\<exists>s. cosine_similarity_fp a b = Inr s)
   \<and> cosine_similarity_fp a b \<noteq> Inl ZeroDivisionError
   \<and> ((\<forall>x \<in> set a. x = Fin 0) \<and> norm_fp b = Inr (Fin n) \<longrightarrow>
        cosine_denom_fp a b = Inr (Fin 1) \<and> cosine_similarity_fp a b = Inr (Fin 0))
   \<and> ((\<forall>y \<in> set b. y = Fin 0) \<and> norm_fp a = Inr (Fin n) \<longrightarrow>
        cosine_denom_fp a b = Inr (Fin 1) \<and> cosine_similarity_fp a b = Inr (Fin 0))
   \<and> (norm_fp a = Inr na \<and> norm_fp b = Inr nb \<and> fl_mul na nb = Fin 0 \<longrightarrow>
        cosine_denom_fp a b = Inr (Fin 1))"
proof (intro conjI impI)
  show "\<exists>s. cosine_similarity_fp a b = Inr s" by (rule cosine_similarity_fp_returns)
  then show "cosine_similarity_fp a b \<noteq> Inl ZeroDivisionError" by auto
next
  assume "(\<forall>x \<in> set a. x = Fin 0) \<and> norm_fp b = Inr (Fin n)"
  then have h: "\<forall>x \<in> set a. x = Fin 0" "norm_fp b = Inr (Fin n)" by simp_all
  show "cosine_denom_fp a b = Inr (Fin 1)" using cosine_zero_left [OF h] by simp
  show "cosine_similarity_fp a b = Inr (Fin 0)" using cosine_zero_left [OF h] by simp
next
  assume "(\<forall>y \<in> set b. y = Fin 0) \<and> norm_fp a = Inr (Fin n)"
  then have h: "\<forall>y \<in> set b. y = Fin 0" "norm_fp a = Inr (Fin n)" by simp_all
  show "cosine_denom_fp a b = Inr (Fin 1)" using cosine_zero_right [OF h] by simp
  show "cosine_similarity_fp a b = Inr (Fin 0)" using cosine_zero_right [OF h] by simp
next
  assume "norm_fp a = Inr na \<and> norm_fp b = Inr nb \<and> fl_mul na nb = Fin 0"
  then show "cosine_denom_fp a b = Inr (Fin 1)"
    by (simp add: cosine_denom_fp_def truthy_def)
qed

theorem C8_witness:
  "norm_fp [Fin 2, Fin 0] = Inr (Fin 2)
   \<and> cosine_denom_fp [Fin 0, Fin 0] [Fin 2, Fin 0] = Inr (Fin 1)
   \<and> cosine_similarity_fp [Fin 0, Fin 0] [Fin 2, Fin 0] = Inr (Fin 0)"
proof -
  have n: "norm_fp [Fin 2, Fin 0] = Inr (Fin 2)"
    by (simp add: norm_fp_def sum_squares_fp_def fl_round_def float_overflow_def)
  have z: "\<forall>x \<in> set [Fin 0, Fin 0]. x = Fin 0" by simp
  show ?thesis
    using n z C8_cosine_zero_vector_amended [of "[Fin 0, Fin 0]" "[Fin 2, Fin 0]" 2] by blast
qed

section \<open>Properties of the scoring engine over floats\<close>

lemma compute_match_score_fp_value:
  assumes "cosine_similarity_fp u v = Inr s"
  shows "\<exists>jac sc. compute_match_score_fp u v A B =
     Inr \<lparr>similarity_fp = s, jaccard_fp = jac, score_fp = sc,
          confidence_fp = fl_add (Fin 0.5) (fl_mul (Fin 0.5) (py_min2 s (Fin 1))),
          missing_skills_fp = sorted_list_of_set (set (map lower B) - set (map lower A)),
          skill_overlap_fp = card (set (map lower A) \<inter> set (map lower B)),
          skill_union_fp = len_or_1 (set (map lower A) \<union> set (map lower B))\<rparr>"
proof -
  have "Fin (real (len_or_1 (set (map lower A) \<union> set (map lower B)))) \<noteq> Fin 0"
    using len_or_1_pos by simp
  then obtain jac where
      "fl_truediv (Fin (real (card (set (map lower A) \<inter> set (map lower B)))))
         (Fin (real (len_or_1 (set (map lower A) \<union> set (map lower B))))) = Inr jac"
    using fl_truediv_returns by blast
  then show ?thesis by (simp add: compute_match_score_fp_def assms Let_def)
qed

lemma confidence_not_above_1:
  "\<not> fl_lt (Fin 1) (fl_add (Fin 0.5) (fl_mul (Fin 0.5) (py_min2 s (Fin 1))))"
proof (cases s)
  case (Fin x)
  show ?thesis
  proof (cases "1 < x")
    case True
    then show ?thesis using Fin float_overflow_pos by (simp add: py_min2_def fl_round_def)
  next
    case False
    then show ?thesis using Fin float_overflow_pos
      by (auto simp: py_min2_def fl_round_def)
  qed
next
  case PInf
  then show ?thesis using float_overflow_pos by (simp add: py_min2_def fl_round_def)
next
  case NInf
  then show ?thesis by (simp add: py_min2_def)
next
  case NaN
  then show ?thesis by (simp add: py_min2_def)
qed

lemma confidence_nonneg_similarity:
  assumes "fl_le (Fin 0) s"
  shows "fl_le (Fin 0.5) (fl_add (Fin 0.5) (fl_mul (Fin 0.5) (py_min2 s (Fin 1))))
       \<and> fl_le (fl_add (Fin 0.5) (fl_mul (Fin 0.5) (py_min2 s (Fin 1)))) (Fin 1)"
proof (cases s)
  case (Fin x)
  then have x: "0 \<le> x" using assms by (auto simp: fl_le_def)
  show ?thesis
  proof (cases "1 < x")
    case True
    then show ?thesis using Fin float_overflow_pos by (simp add: py_min2_def fl_round_def fl_le_def)
  next
    case False
    then show ?thesis using Fin x float_overflow_pos
      by (auto simp: py_min2_def fl_round_def fl_le_def)
  qed
next
  case PInf
  then show ?thesis using float_overflow_pos by (simp add: py_min2_def fl_round_def fl_le_def)
next
  case NInf
  then show ?thesis using assms by (simp add: fl_le_def)
next
  case NaN
  then show ?thesis using assms by (simp add: fl_le_def)
qed

text \<open>
  Claim C1, as stated (confidence always within [0.5, 1.0]), fails: for the vectors
  \<open>[1.0]\<close> and \<open>[-1.0]\<close> the similarity is \<open>-1\<close> and the confidence is \<open>0\<close>. Nothing in
  \<open>compute_match_score\<close> bounds the similarity from below before it enters the confidence.
\<close>

theorem C1_counterexample:
  "compute_match_score_fp [Fin 1] [Fin (- 1)] [] [] =
     Inr \<lparr>similarity_fp = Fin (- 1), jaccard_fp = Fin 0, score_fp = Fin 0,
          confidence_fp = Fin 0, missing_skills_fp = [],
          skill_overlap_fp = 0, skill_union_fp = 1\<rparr>
   \<and> fl_lt (Fin 0) (Fin (1 / 2))"
  by (simp add: compute_match_score_fp_def cosine_similarity_fp_def cosine_denom_fp_def
      norm_fp_def sum_squares_fp_def dot_fp_def fl_round_def float_overflow_def truthy_def
      len_or_1_def py_min2_def py_max2_def)

text \<open>
  Claim C1, amended. For all input vectors and skill lists the scoring engine returns a
  MatchResult whose similarity is the cosine similarity of the vectors and whose
  confidence is \<open>0.5 + 0.5 * min(similarity, 1.0)\<close>. The confidence is never greater than
  1.0, and it lies within [0.5, 1.0] whenever the similarity is at least 0. There is
  no floor at 0.5 for a negative similarity.
\<close>

theorem C1_confidence_formula_amended:
  "\<exists>s r. cosine_similarity_fp u v = Inr s
         \<and> compute_match_score_fp u v A B = Inr r
         \<and> similarity_fp r = s
         \<and> confidence_fp r = fl_add (Fin 0.5) (fl_mul (Fin 0.5) (py_min2 s (Fin 1)))
         \<and> \<not> fl_lt (Fin 1) (confidence_fp r)
         \<and> (fl_le (Fin 0) s \<longrightarrow>
              fl_le (Fin 0.5) (confidence_fp r) \<and> fl_le (confidence_fp r) (Fin 1))"
proof -
  obtain s where s: "cosine_similarity_fp u v = Inr s"
    using cosine_similarity_fp_returns by blast
  obtain r where r: "compute_match_score_fp u v A B = Inr r"
      "similarity_fp r = s"
      "confidence_fp r = fl_add (Fin 0.5) (fl_mul (Fin 0.5) (py_min2 s (Fin 1)))"
    using compute_match_score_fp_value [OF s, of A B] by auto
  have a: "\<not> fl_lt (Fin 1) (confidence_fp r)"
    unfolding r(3) by (rule confidence_not_above_1)
  have b: "fl_le (Fin 0) s \<longrightarrow>
              fl_le (Fin 0.5) (confidence_fp r) \<and> fl_le (confidence_fp r) (Fin 1)"
    unfolding r(3) using confidence_nonneg_similarity by blast
  show ?thesis using s r a b by blast
qed

theorem C1_witness:
  "cosine_similarity_fp [Fin 2, Fin 0] [Fin 1, Fin 0] = Inr (Fin 1)
   \<and> fl_le (Fin 0) (Fin 1)
   \<and> (\<exists>r. compute_match_score_fp [Fin 2, Fin 0] [Fin 1, Fin 0] [''Python''] [''python'', ''aws'']
            = Inr r
          \<and> similarity_fp r = Fin 1 \<and> confidence_fp r = Fin 1
          \<and> fl_le (Fin 0.5) (confidence_fp r) \<and> fl_le (confidence_fp r) (Fin 1))"
proof -
  have c: "cosine_similarity_fp [Fin 2, Fin 0] [Fin 1, Fin 0] = Inr (Fin 1)"
    by (simp add: cosine_similarity_fp_def cosine_denom_fp_def norm_fp_def sum_squares_fp_def
        dot_fp_def fl_round_def float_overflow_def truthy_def)
  have l: "fl_le (Fin 0) (Fin 1)" by (simp add: fl_le_def)
  have v: "fl_add (Fin 0.5) (fl_mul (Fin 0.5) (py_min2 (Fin 1) (Fin 1))) = Fin 1"
    by (simp add: py_min2_def fl_round_def float_overflow_def)
  show ?thesis
    using c l v C1_confidence_formula_amended
      [of "[Fin 2, Fin 0]" "[Fin 1, Fin 0]" "[''Python'']" "[''python'', ''aws'']"]
    by auto
qed

section \<open>Properties of the evidence ranker over floats\<close>
















end
